theory Spec2Isabelle
  imports Main "HOL-Library.AList"
begin

section \<open>The manifest post-processor (post-processor/manifest/post-processor.go)\<close>

text \<open>
  A shallow embedding of \<^verbatim>\<open>PostProcess\<close>, \<^verbatim>\<open>lockFile\<close>, \<^verbatim>\<open>Hcl2Manifest\<close> and
  \<^verbatim>\<open>setMapVal\<close>. The file system, the environment and the clock are an explicit
  \<open>world\<close> that every operation takes and returns; a Go panic is the outcome
  \<open>Panic\<close>; the libraries the code calls (encoding/json, hcl, the template engine,
  the hcl2 shim) are parameters, collected in the record \<open>externals\<close>.
\<close>

subsection \<open>Data model\<close>

type_synonym path = string
type_synonym bytes = string

text \<open>\<^verbatim>\<open>ArtifactFile\<close> and \<^verbatim>\<open>Artifact\<close>: the fields that lines 105-148 assign.\<close>

record ArtifactFile =
  Name :: string
  Size :: int

record Artifact =
  BuildName :: string
  BuilderType :: string
  BuildTime :: int
  ArtifactFiles :: "ArtifactFile list"
  ArtifactId :: string
  PackerRunUUID :: string
  ArtifactCustomData :: "(string \<times> string) list"

text \<open>\<^verbatim>\<open>ManifestFile\<close> (lines 51-54); \<^verbatim>\<open>&ManifestFile{}\<close> is its zero value.\<close>

record ManifestFile =
  Builds :: "Artifact list"
  LastRunUUID :: string

definition ManifestFile_zero :: ManifestFile where
  "ManifestFile_zero = \<lparr>Builds = [], LastRunUUID = ''''\<rparr>"

text \<open>
  \<^verbatim>\<open>Config\<close> (lines 28-45) with the fields of the embedded \<^verbatim>\<open>common.PackerConfig\<close>
  that the code reads. A Go \<^verbatim>\<open>map[string]string\<close> is an association list.
\<close>

record Config =
  PackerBuildGroupName :: string
  PackerBuildName :: string
  PackerBuilderType :: string
  PackerForce :: bool
  OutputPath :: string
  StripPath :: bool
  StripTime :: bool
  CustomData :: "(string \<times> string) list"

text \<open>The \<^verbatim>\<open>packer.Artifact\<close> being recorded: what \<^verbatim>\<open>Id()\<close> and \<^verbatim>\<open>Files()\<close> return.\<close>

record Source =
  source_Id :: string
  source_Files :: "string list"

text \<open>
  A value held in a Go \<^verbatim>\<open>interface{}\<close>, by its dynamic type: what the type
  assertions of lines 215 and 270 branch on. \<open>GInt\<close> is an \<^verbatim>\<open>int\<close>, \<open>GInt64\<close> an \<^verbatim>\<open>int64\<close>,
  \<open>GMap\<close> stands for \<^verbatim>\<open>map[string]interface{}\<close>, \<open>GList\<close> for \<^verbatim>\<open>[]interface{}\<close>.
\<close>

datatype gval =
    GNil
  | GBool bool
  | GString string
  | GInt int
  | GInt64 int
  | GList "gval list"
  | GMap "(string \<times> gval) list"

subsection \<open>The world: files, environment, clock, and what was slept and logged\<close>

text \<open>
  A file can be read or not and has contents; whether a path can be written or created
  or removed is a property of the path (\<open>write_denied\<close>): creating the sentinel,
  writing the manifest and removing the sentinel all fail there. The world
  has one process: nothing changes a file between two steps of an invocation. Sleeping,
  opening the sentinel and logging are recorded in \<open>trace\<close>, in order.
\<close>

record osfile =
  file_readable :: bool
  file_contents :: bytes

datatype os_error = ErrNotExist | ErrExist | ErrPermission

datatype event =
    Sleep nat
  | OpenExcl path
  | Printf string os_error

record world =
  files :: "path \<rightharpoonup> osfile"
  write_denied :: "path \<Rightarrow> bool"
  PACKER_RUN_UUID :: string
  now_unix :: int
  trace :: "event list"

definition ReadFile :: "world \<Rightarrow> path \<Rightarrow> os_error + bytes" where
  "ReadFile w p =
     (case files w p of
        None \<Rightarrow> Inl ErrNotExist
      | Some f \<Rightarrow> if file_readable f then Inr (file_contents f) else Inl ErrPermission)"

definition WriteFile :: "path \<Rightarrow> bytes \<Rightarrow> world \<Rightarrow> os_error option \<times> world" where
  "WriteFile p data w =
     (if write_denied w p then (Some ErrPermission, w)
      else (None, w\<lparr>files := (files w)(p \<mapsto>
              (case files w p of
                 None \<Rightarrow> \<lparr>file_readable = True, file_contents = data\<rparr>
               | Some f \<Rightarrow> f\<lparr>file_contents := data\<rparr>))\<rparr>))"

definition Stat :: "world \<Rightarrow> path \<Rightarrow> int option" where
  "Stat w p = map_option (\<lambda>f. int (length (file_contents f))) (files w p)"

text \<open>\<^verbatim>\<open>os.OpenFile(name, O_RDWR|O_CREATE|O_EXCL, 0600)\<close>: fails when the file exists.\<close>

definition OpenFile_excl :: "path \<Rightarrow> world \<Rightarrow> os_error option \<times> world" where
  "OpenFile_excl p w =
     (let w1 = w\<lparr>trace := trace w @ [OpenExcl p]\<rparr> in
      if files w p \<noteq> None then (Some ErrExist, w1)
      else if write_denied w p then (Some ErrPermission, w1)
      else (None, w1\<lparr>files := (files w)(p \<mapsto> \<lparr>file_readable = True, file_contents = []\<rparr>)\<rparr>))"

definition Remove :: "path \<Rightarrow> world \<Rightarrow> os_error option \<times> world" where
  "Remove p w =
     (if files w p = None then (Some ErrNotExist, w)
      else if write_denied w p then (Some ErrPermission, w)
      else (None, w\<lparr>files := (files w)(p := None)\<rparr>))"

definition time_Sleep :: "nat \<Rightarrow> world \<Rightarrow> world" where
  "time_Sleep ms w = w\<lparr>trace := trace w @ [Sleep ms]\<rparr>"

definition log_Printf :: "string \<Rightarrow> os_error \<Rightarrow> world \<Rightarrow> world" where
  "log_Printf fmt e w = w\<lparr>trace := trace w @ [Printf fmt e]\<rparr>"

text \<open>\<^verbatim>\<open>strings.HasSuffix\<close>.\<close>

definition HasSuffix :: "string \<Rightarrow> string \<Rightarrow> bool" where
  "HasSuffix s suf = (length suf \<le> length s \<and> drop (length s - length suf) s = suf)"

subsection \<open>The libraries, as parameters\<close>

text \<open>
  \<open>Render\<close> is \<^verbatim>\<open>interpolate.Render\<close> under the invocation's context, \<open>Base\<close> is
  \<^verbatim>\<open>filepath.Base\<close>, \<open>Unmarshal\<close> is \<^verbatim>\<open>json.Unmarshal\<close> into a fresh \<^verbatim>\<open>ManifestFile\<close>,
  \<open>MarshalIndent\<close> is \<^verbatim>\<open>json.MarshalIndent\<close> with two spaces; \<open>None\<close> is the error.
  \<open>ParseHCL\<close> is \<^verbatim>\<open>hclparse.NewParser().ParseHCL\<close> followed by \<^verbatim>\<open>JustAttributes\<close>:
  \<open>None\<close> when the diagnostics have errors, else the attributes of the body, each
  name once, with their expressions of type \<open>'e\<close>. \<open>Expr_Value\<close> is
  \<^verbatim>\<open>Expr.Value(nil)\<close>: the value, of type \<open>'v\<close>, and whether the diagnostics have
  errors. \<open>ConfigValueFromHCL2\<close> and \<open>HCL2ValueFromConfigValue\<close> are the two
  conversions of the hcl2 shim; the second panics on a Go value of a type it does not
  know, which is \<open>None\<close>. \<open>IsWhollyKnown\<close> holds of the values that \<^verbatim>\<open>hclwrite\<close> can
  turn into tokens: on any other value, an unknown one above all,
  \<^verbatim>\<open>SetAttributeValue\<close> panics. \<open>WriteTo\<close> serialises the attributes of an
  \<^verbatim>\<open>hclwrite\<close> file.
\<close>

record ('e, 'v) externals =
  Render :: "string \<Rightarrow> string option"
  Base :: "string \<Rightarrow> string"
  Unmarshal :: "bytes \<Rightarrow> ManifestFile option"
  MarshalIndent :: "ManifestFile \<Rightarrow> bytes option"
  ParseHCL :: "bytes \<Rightarrow> (string \<times> 'e) list option"
  Expr_Value :: "'e \<Rightarrow> 'v \<times> bool"
  ConfigValueFromHCL2 :: "'v \<Rightarrow> gval"
  HCL2ValueFromConfigValue :: "gval \<Rightarrow> 'v option"
  IsWhollyKnown :: "'v \<Rightarrow> bool"
  WriteTo :: "(string \<times> 'v) list \<Rightarrow> bytes option"

subsection \<open>Results\<close>

text \<open>
  The errors \<^verbatim>\<open>PostProcess\<close> returns, by the message that wraps them:
  \<open>InterpolateError\<close> "Error interpolating custom data", \<open>ReadError\<close> "Unable to open
  ... for reading", \<open>ParseError\<close> "Unable to parse content from" (JSON) and "Failed
  to parse output file" (structured text), \<open>MarshalError\<close> "Unable to marshal JSON"
  and the error of \<^verbatim>\<open>wFile.WriteTo\<close>, \<open>WriteError\<close> "Unable to write" and the error
  of the structured-text \<^verbatim>\<open>ioutil.WriteFile\<close>.
\<close>

datatype error = InterpolateError | ReadError | ParseError | MarshalError | WriteError

text \<open>The four results of \<^verbatim>\<open>PostProcess\<close>, or a panic.\<close>

datatype outcome =
    Return "Source option" bool bool "error option"
  | Panic

subsection \<open>\<^verbatim>\<open>lockFile\<close> (lines 184-195)\<close>

function lockFile_loop :: "path \<Rightarrow> nat \<Rightarrow> world \<Rightarrow> world" where
  "lockFile_loop lockFilename i w =
     (if i < 3 then
        (case OpenFile_excl lockFilename (time_Sleep (i * 200) w) of
           (None, w') \<Rightarrow> w'
         | (Some err, w') \<Rightarrow>
             lockFile_loop lockFilename (Suc i)
               (log_Printf ''Error locking manifest file for reading and writing. Will sleep and retry. %s'' err w'))
      else w)"
  by pat_completeness auto
termination
  by (relation "measure (\<lambda>(_, i, _). 3 - i)") auto

declare lockFile_loop.simps [simp del]

text \<open>
  The lock is taken when \<open>lockFile\<close> is called; the result is the cleanup closure,
  which drops the error of \<^verbatim>\<open>os.Remove\<close>.
\<close>

definition lockFile :: "path \<Rightarrow> world \<Rightarrow> (world \<Rightarrow> world) \<times> world" where
  "lockFile lockFilename w =
     (\<lambda>w'. snd (Remove lockFilename w'), lockFile_loop lockFilename 0 w)"

subsection \<open>\<^verbatim>\<open>setMapVal\<close> (lines 260-273)\<close>

text \<open>
  The Go code walks and mutates nested maps in place; the model returns the updated
  root. \<open>None\<close> is a panic: the slice \<^verbatim>\<open>keys[:len(keys)-1]\<close> of no keys, or the type
  assertion of line 270 on a value that is not a map.
\<close>

fun setMapVal :: "(string \<times> gval) list \<Rightarrow> (string \<times> gval) list \<Rightarrow> string list
    \<Rightarrow> (string \<times> gval) list option" where
  "setMapVal target toSet [] = None"
| "setMapVal target toSet [final] = Some (AList.update final (GMap toSet) target)"
| "setMapVal target toSet (key # keys) =
     (if key = '''' then setMapVal target toSet keys
      else
        (case map_of target key of
           None \<Rightarrow>
             map_option (\<lambda>value. AList.update key (GMap value) target)
               (setMapVal [] toSet keys)
         | Some (GMap value) \<Rightarrow>
             map_option (\<lambda>value. AList.update key (GMap value) target)
               (setMapVal value toSet keys)
         | Some _ \<Rightarrow> None))"

subsection \<open>\<^verbatim>\<open>Hcl2Manifest\<close> (lines 197-258)\<close>

text \<open>Lines 208-217: the prior \<^verbatim>\<open>manifest\<close> mapping; \<open>None\<close> is the panic of line 215.\<close>

definition priorManifest :: "('e, 'v) externals \<Rightarrow> (string \<times> 'e) list
    \<Rightarrow> (string \<times> gval) list option" where
  "priorManifest ext attrs =
     (case map_of attrs ''manifest'' of
        None \<Rightarrow> Some []
      | Some buildAttr \<Rightarrow>
          (case Expr_Value ext buildAttr of
             (buildVal, hasErrors) \<Rightarrow>
               if \<not> hasErrors then
                 (case ConfigValueFromHCL2 ext buildVal of
                    GMap m \<Rightarrow> Some m
                  | _ \<Rightarrow> None)
               else Some []))"

text \<open>Lines 218-238: the entry of this build.\<close>

definition newEntry :: "Config \<Rightarrow> Source \<Rightarrow> ArtifactFile list \<Rightarrow> world \<Rightarrow> (string \<times> gval) list" where
  "newEntry cfg source aFiles w =
     (let entry = [(''artifact_id'', GString (source_Id source)),
                   (''packer_run_uuid'', GString (PACKER_RUN_UUID w))];
          entry = (if length (CustomData cfg) > 0
                   then AList.update ''custom_data''
                          (GMap (fold (\<lambda>(k, v). AList.update k (GString v)) (CustomData cfg) [])) entry
                   else entry);
          entry = (if length aFiles > 0
                   then AList.update ''files''
                          (GList (map (\<lambda>v. GMap [(''name'', GString (Name v)), (''size'', GInt64 (Size v))]) aFiles)) entry
                   else entry)
      in entry)"

text \<open>
  Lines 242-249: the body of the new file. \<^verbatim>\<open>SetAttributeValue\<close> replaces the
  attribute of that name or adds it, and panics, which is \<open>None\<close>, on a value that
  \<^verbatim>\<open>hclwrite\<close> cannot turn into tokens. The diagnostics of line 245 are dropped, as
  in the code, so the value of an expression that does not evaluate reaches
  \<^verbatim>\<open>SetAttributeValue\<close>. The conversion of line 249 panics where the shim does.
\<close>

definition SetAttributeValue :: "('e, 'v) externals \<Rightarrow> string \<Rightarrow> 'v \<Rightarrow> (string \<times> 'v) list
    \<Rightarrow> (string \<times> 'v) list option" where
  "SetAttributeValue ext key v wBody =
     (if IsWhollyKnown ext v then Some (AList.update key v wBody) else None)"

fun setAttributes :: "('e, 'v) externals \<Rightarrow> (string \<times> 'e) list \<Rightarrow> (string \<times> 'v) list
    \<Rightarrow> (string \<times> 'v) list option" where
  "setAttributes ext [] wBody = Some wBody"
| "setAttributes ext ((key, val) # attrs) wBody =
     (case SetAttributeValue ext key (fst (Expr_Value ext val)) wBody of
        None \<Rightarrow> None
      | Some wBody' \<Rightarrow> setAttributes ext attrs wBody')"

definition newBody :: "('e, 'v) externals \<Rightarrow> (string \<times> 'e) list \<Rightarrow> (string \<times> gval) list
    \<Rightarrow> (string \<times> 'v) list option" where
  "newBody ext attrs manifest =
     (case setAttributes ext attrs [] of
        None \<Rightarrow> None
      | Some wBody \<Rightarrow>
          (case HCL2ValueFromConfigValue ext (GMap manifest) of
             None \<Rightarrow> None
           | Some v \<Rightarrow> SetAttributeValue ext ''manifest'' v wBody))"

definition Hcl2Manifest :: "('e, 'v) externals \<Rightarrow> Config \<Rightarrow> bytes \<Rightarrow> Source \<Rightarrow> ArtifactFile list
    \<Rightarrow> world \<Rightarrow> outcome \<times> world" where
  "Hcl2Manifest ext cfg contents source aFiles w =
     (let buildName = PackerBuildGroupName cfg;
          sourceName = PackerBuildName cfg;
          sourceType = PackerBuilderType cfg
      in case ParseHCL ext contents of
           None \<Rightarrow> (Return (Some source) True True (Some ParseError), w)
         | Some attrs \<Rightarrow>
             (case priorManifest ext attrs of
                None \<Rightarrow> (Panic, w)
              | Some manifest \<Rightarrow>
                  (case setMapVal manifest (newEntry cfg source aFiles w)
                          [buildName, sourceType, sourceName] of
                     None \<Rightarrow> (Panic, w)
                   | Some manifest' \<Rightarrow>
                       (case newBody ext attrs manifest' of
                          None \<Rightarrow> (Panic, w)
                        | Some wBody \<Rightarrow>
                            (case WriteTo ext wBody of
                               None \<Rightarrow> (Return (Some source) True True (Some MarshalError), w)
                             | Some out \<Rightarrow>
                                 (case WriteFile (OutputPath cfg) out w of
                                    (None, w') \<Rightarrow> (Return (Some source) True True None, w')
                                  | (Some e, w') \<Rightarrow>
                                      (Return (Some source) True True (Some WriteError), w')))))))"

subsection \<open>\<^verbatim>\<open>PostProcess\<close> (lines 81-180)\<close>

text \<open>Lines 89-95: the custom data, interpolated; \<open>None\<close> when a value fails to render.\<close>

fun interpolateCustomData :: "(string \<Rightarrow> string option) \<Rightarrow> (string \<times> string) list
    \<Rightarrow> (string \<times> string) list option" where
  "interpolateCustomData render [] = Some []"
| "interpolateCustomData render ((key, data) # rest) =
     (case render data of
        None \<Rightarrow> None
      | Some interpolatedData \<Rightarrow>
          map_option (\<lambda>r. (key, interpolatedData) # r) (interpolateCustomData render rest))"

text \<open>Lines 104-115: one \<^verbatim>\<open>ArtifactFile\<close> per file of the source.\<close>

definition artifactFile :: "('e, 'v) externals \<Rightarrow> Config \<Rightarrow> world \<Rightarrow> string \<Rightarrow> ArtifactFile" where
  "artifactFile ext cfg w name =
     \<lparr>Name = (if StripPath cfg then Base ext name else name),
      Size = (case Stat w name of Some sz \<Rightarrow> sz | None \<Rightarrow> 0)\<rparr>"

text \<open>Lines 123-126: the contents of the manifest; a file that does not exist reads as empty.\<close>

definition readContents :: "world \<Rightarrow> path \<Rightarrow> error + bytes" where
  "readContents w p =
     (case ReadFile w p of
        Inr contents \<Rightarrow> Inr contents
      | Inl err \<Rightarrow> if err \<noteq> ErrNotExist then Inl ReadError else Inr [])"

text \<open>Lines 132-148: the record of this build.\<close>

definition newArtifact :: "Config \<Rightarrow> Source \<Rightarrow> ArtifactFile list \<Rightarrow> world \<Rightarrow> Artifact" where
  "newArtifact cfg source aFiles w =
     \<lparr>BuildName = PackerBuildName cfg,
      BuilderType = PackerBuilderType cfg,
      BuildTime = (if StripTime cfg then 0 else now_unix w),
      ArtifactFiles = aFiles,
      ArtifactId = source_Id source,
      PackerRunUUID = PACKER_RUN_UUID w,
      ArtifactCustomData = CustomData cfg\<rparr>"

text \<open>Lines 150-156: the prior document; \<open>None\<close> when \<^verbatim>\<open>json.Unmarshal\<close> fails.\<close>

definition parseManifestFile :: "('e, 'v) externals \<Rightarrow> bytes \<Rightarrow> ManifestFile option" where
  "parseManifestFile ext contents =
     (if length contents > 0 then Unmarshal ext contents else Some ManifestFile_zero)"

text \<open>Lines 158-166: truncate on a forced new run, then append and stamp the run.\<close>

definition mergeArtifact :: "bool \<Rightarrow> string \<Rightarrow> ManifestFile \<Rightarrow> Artifact \<Rightarrow> ManifestFile" where
  "mergeArtifact force runUUID manifestFile artifact =
     (let manifestFile = (if force \<and> runUUID \<noteq> LastRunUUID manifestFile
                          then ManifestFile_zero else manifestFile);
          manifestFile = manifestFile\<lparr>Builds := Builds manifestFile @ [artifact]\<rparr>
      in manifestFile\<lparr>LastRunUUID := runUUID\<rparr>)"

text \<open>Lines 122-179: what runs while the lock is held.\<close>

definition PostProcess_locked :: "('e, 'v) externals \<Rightarrow> Config \<Rightarrow> Source \<Rightarrow> ArtifactFile list
    \<Rightarrow> world \<Rightarrow> outcome \<times> world" where
  "PostProcess_locked ext cfg source aFiles w =
     (case readContents w (OutputPath cfg) of
        Inl e \<Rightarrow> (Return (Some source) True True (Some e), w)
      | Inr contents \<Rightarrow>
          if HasSuffix (OutputPath cfg) ''.pkrvars.hcl''
          then Hcl2Manifest ext cfg contents source aFiles w
          else
            (case parseManifestFile ext contents of
               None \<Rightarrow> (Return (Some source) True True (Some ParseError), w)
             | Some manifestFile \<Rightarrow>
                 (case MarshalIndent ext
                         (mergeArtifact (PackerForce cfg) (PACKER_RUN_UUID w) manifestFile
                            (newArtifact cfg source aFiles w)) of
                    None \<Rightarrow> (Return (Some source) True True (Some MarshalError), w)
                  | Some out \<Rightarrow>
                      (case WriteFile (OutputPath cfg) out w of
                         (None, w') \<Rightarrow> (Return (Some source) True True None, w')
                       | (Some e, w') \<Rightarrow> (Return (Some source) True True (Some WriteError), w')))))"

text \<open>
  The whole call. The deferred cleanup of line 120 runs on every way out of the
  locked part, a panic included.
\<close>

definition PostProcess :: "('e, 'v) externals \<Rightarrow> Config \<Rightarrow> Source \<Rightarrow> world \<Rightarrow> outcome \<times> world" where
  "PostProcess ext cfg source w =
     (case interpolateCustomData (Render ext) (CustomData cfg) of
        None \<Rightarrow> (Return None False False (Some InterpolateError), w)
      | Some customData \<Rightarrow>
          (let cfg = cfg\<lparr>CustomData := customData\<rparr>;
               aFiles = map (artifactFile ext cfg w) (source_Files source);
               lockFilename = OutputPath cfg @ ''.lock'';
               (cleanup, w1) = lockFile lockFilename w;
               (result, w2) = PostProcess_locked ext cfg source aFiles w1
           in (result, cleanup w2)))"

subsection \<open>What the properties are stated with\<close>

text \<open>The record that an invocation adds, from the configuration as \<open>PostProcess\<close> updates it.\<close>

definition thisArtifact :: "('e, 'v) externals \<Rightarrow> Config \<Rightarrow> (string \<times> string) list \<Rightarrow> Source
    \<Rightarrow> world \<Rightarrow> Artifact" where
  "thisArtifact ext cfg customData source w =
     (let cfg = cfg\<lparr>CustomData := customData\<rparr>
      in newArtifact cfg source (map (artifactFile ext cfg w) (source_Files source)) w)"

text \<open>The bytes stored at a path, if the file exists.\<close>

definition persisted :: "world \<Rightarrow> path \<Rightarrow> bytes option" where
  "persisted w p = map_option file_contents (files w p)"

text \<open>
  A run \<open>r\<close> from the world \<open>w\<close> persists the document \<open>doc\<close> at \<open>p\<close>: it returns no
  error and the file holds the encoding of \<open>doc\<close>, unless the encoder or the write
  fails, which is the error returned, with the file left as it was.
\<close>

definition writes_document :: "('e, 'v) externals \<Rightarrow> Source \<Rightarrow> path \<Rightarrow> ManifestFile \<Rightarrow> world
    \<Rightarrow> outcome \<times> world \<Rightarrow> bool" where
  "writes_document ext source p doc w r =
     (case MarshalIndent ext doc of
        None \<Rightarrow> fst r = Return (Some source) True True (Some MarshalError)
                 \<and> persisted (snd r) p = persisted w p
      | Some out \<Rightarrow>
          if write_denied w p
          then fst r = Return (Some source) True True (Some WriteError)
               \<and> persisted (snd r) p = persisted w p
          else fst r = Return (Some source) True True None
               \<and> persisted (snd r) p = Some out)"

text \<open>\<^verbatim>\<open>m[k1][k2]...\<close>: the value under a path of keys in nested maps.\<close>

fun lookupPath :: "(string \<times> gval) list \<Rightarrow> string list \<Rightarrow> gval option" where
  "lookupPath m [] = Some (GMap m)"
| "lookupPath m [k] = map_of m k"
| "lookupPath m (k # ks) =
     (case map_of m k of
        Some (GMap m') \<Rightarrow> lookupPath m' ks
      | _ \<Rightarrow> None)"

text \<open>
  The keys that \<open>setMapVal\<close> descends through meet no value that is not a map: an
  empty key is skipped, a missing key is created.
\<close>

fun walkable :: "(string \<times> gval) list \<Rightarrow> string list \<Rightarrow> bool" where
  "walkable target [] = True"
| "walkable target (key # keys) =
     (if key = '''' then walkable target keys
      else
        (case map_of target key of
           None \<Rightarrow> True
         | Some (GMap value) \<Rightarrow> walkable value keys
         | Some _ \<Rightarrow> False))"

subsection \<open>A concrete setting, for evaluating the model\<close>

definition demo_old :: Artifact where
  "demo_old = \<lparr>BuildName = ''name'', BuilderType = ''type'', BuildTime = 1,
     ArtifactFiles = [], ArtifactId = ''old'', PackerRunUUID = ''R1'', ArtifactCustomData = []\<rparr>"

definition demo_prior :: ManifestFile where
  "demo_prior = \<lparr>Builds = [demo_old], LastRunUUID = ''R1''\<rparr>"

definition demo_encode :: "ManifestFile \<Rightarrow> bytes" where
  "demo_encode m = LastRunUUID m @ concat (map (\<lambda>a. '','' @ ArtifactId a) (Builds m))"

definition demo_ext :: "(gval \<times> bool, gval) externals" where
  "demo_ext =
     \<lparr>Render = Some,
      Base = (\<lambda>name. name),
      Unmarshal = (\<lambda>c. if c = ''R1,old'' then Some demo_prior else None),
      MarshalIndent = (\<lambda>m. Some (demo_encode m)),
      ParseHCL = (\<lambda>c. if c = [] then Some []
                      else if c = ''region = eu'' then Some [(''region'', (GString ''eu'', False))]
                      else if c = ''manifest = x'' then Some [(''manifest'', (GString ''x'', False))]
                      else None),
      Expr_Value = (\<lambda>e. e),
      ConfigValueFromHCL2 = (\<lambda>v. v),
      HCL2ValueFromConfigValue = Some,
      IsWhollyKnown = (\<lambda>v. True),
      WriteTo = (\<lambda>body. Some (concat (map (\<lambda>(k, v). k @ '';'') body)))\<rparr>"

definition demo_cfg :: "bool \<Rightarrow> path \<Rightarrow> Config" where
  "demo_cfg force p =
     \<lparr>PackerBuildGroupName = ''group'', PackerBuildName = ''name'', PackerBuilderType = ''type'',
      PackerForce = force, OutputPath = p, StripPath = False, StripTime = True, CustomData = []\<rparr>"

definition demo_source :: Source where
  "demo_source = \<lparr>source_Id = ''ami-123'', source_Files = [''a.txt'']\<rparr>"

definition demo_new :: "string \<Rightarrow> Artifact" where
  "demo_new run = \<lparr>BuildName = ''name'', BuilderType = ''type'', BuildTime = 0,
     ArtifactFiles = [\<lparr>Name = ''a.txt'', Size = 0\<rparr>], ArtifactId = ''ami-123'',
     PackerRunUUID = run, ArtifactCustomData = []\<rparr>"

definition demo_file :: "bytes \<Rightarrow> osfile" where
  "demo_file c = \<lparr>file_readable = True, file_contents = c\<rparr>"

definition demo_world :: "(path \<times> osfile) list \<Rightarrow> string \<Rightarrow> world" where
  "demo_world fs run =
     \<lparr>files = map_of fs, write_denied = (\<lambda>p. False), PACKER_RUN_UUID = run,
      now_unix = 1600000000, trace = []\<rparr>"


lemmas demo_defs =
  demo_old_def demo_prior_def demo_encode_def demo_ext_def demo_cfg_def demo_source_def
  demo_new_def demo_world_def


section \<open>Properties\<close>

subsection \<open>The lock loop\<close>

lemma lock_ne: "p @ ''.lock'' \<noteq> p"
  by simp

lemma lockFile_loop_frame:
  "(p \<noteq> n \<longrightarrow> files (lockFile_loop n i w) p = files w p)
   \<and> write_denied (lockFile_loop n i w) = write_denied w
   \<and> PACKER_RUN_UUID (lockFile_loop n i w) = PACKER_RUN_UUID w
   \<and> now_unix (lockFile_loop n i w) = now_unix w"
proof (induction n i w rule: lockFile_loop.induct)
  case (1 n i w)
  show ?case
  proof (cases "i < 3")
    case False
    then show ?thesis by (simp add: lockFile_loop.simps [of n i w])
  next
    case True
    obtain r w' where open_eq: "OpenFile_excl n (time_Sleep (i * 200) w) = (r, w')"
      by (cases "OpenFile_excl n (time_Sleep (i * 200) w)")
    have w'_frame: "(p \<noteq> n \<longrightarrow> files w' p = files w p) \<and> write_denied w' = write_denied w
        \<and> PACKER_RUN_UUID w' = PACKER_RUN_UUID w \<and> now_unix w' = now_unix w"
      using open_eq by (auto simp: OpenFile_excl_def time_Sleep_def Let_def split: if_splits)
    show ?thesis
    proof (cases r)
      case None
      have "lockFile_loop n i w = w'"
        using True open_eq None by (simp add: lockFile_loop.simps [of n i w])
      with w'_frame show ?thesis by simp
    next
      case (Some err)
      let ?w'' = "log_Printf ''Error locking manifest file for reading and writing. Will sleep and retry. %s'' err w'"
      have step: "lockFile_loop n i w = lockFile_loop n (Suc i) ?w''"
        using True open_eq Some by (simp add: lockFile_loop.simps [of n i w])
      have IH: "(p \<noteq> n \<longrightarrow> files (lockFile_loop n (Suc i) ?w'') p = files ?w'' p)
          \<and> write_denied (lockFile_loop n (Suc i) ?w'') = write_denied ?w''
          \<and> PACKER_RUN_UUID (lockFile_loop n (Suc i) ?w'') = PACKER_RUN_UUID ?w''
          \<and> now_unix (lockFile_loop n (Suc i) ?w'') = now_unix ?w''"
        using "1" [OF True open_eq [symmetric] Some] .
      show ?thesis
        unfolding step using IH w'_frame by (simp add: log_Printf_def)
    qed
  qed
qed

lemma lockFile_loop_files: "p \<noteq> n \<Longrightarrow> files (lockFile_loop n i w) p = files w p"
  using lockFile_loop_frame [of p n i w] by simp

lemma lockFile_loop_env:
  "write_denied (lockFile_loop n i w) = write_denied w"
  "PACKER_RUN_UUID (lockFile_loop n i w) = PACKER_RUN_UUID w"
  "now_unix (lockFile_loop n i w) = now_unix w"
  using lockFile_loop_frame [of n n i w] by simp_all

subsection \<open>The JSON path of \<open>PostProcess\<close>\<close>

lemma Remove_files:
  "files (snd (Remove n w)) p = (if p = n \<and> \<not> write_denied w n then None else files w p)"
  by (simp add: Remove_def)

lemma PostProcess_unfold:
  assumes "interpolateCustomData (Render ext) (CustomData cfg) = Some cd"
  shows "PostProcess ext cfg source w =
     (let cfg' = cfg\<lparr>CustomData := cd\<rparr>;
          r = PostProcess_locked ext cfg' source (map (artifactFile ext cfg' w) (source_Files source))
                (lockFile_loop (OutputPath cfg @ ''.lock'') 0 w)
      in (fst r, snd (Remove (OutputPath cfg @ ''.lock'') (snd r))))"
  using assms by (simp add: PostProcess_def lockFile_def Let_def split: prod.splits)

lemma readContents_cong:
  "files w1 p = files w p \<Longrightarrow> readContents w1 p = readContents w p"
  by (simp add: readContents_def ReadFile_def)

lemma PostProcess_locked_json:
  assumes "\<not> HasSuffix (OutputPath cfg) ''.pkrvars.hcl''"
    and "readContents w (OutputPath cfg) = Inr c"
    and "parseManifestFile ext c = Some prior"
  shows "PostProcess_locked ext cfg source aFiles w =
     (case MarshalIndent ext (mergeArtifact (PackerForce cfg) (PACKER_RUN_UUID w) prior
              (newArtifact cfg source aFiles w)) of
        None \<Rightarrow> (Return (Some source) True True (Some MarshalError), w)
      | Some out \<Rightarrow>
          if write_denied w (OutputPath cfg)
          then (Return (Some source) True True (Some WriteError), w)
          else (Return (Some source) True True None,
                w\<lparr>files := (files w)(OutputPath cfg \<mapsto>
                   (case files w (OutputPath cfg) of
                      None \<Rightarrow> \<lparr>file_readable = True, file_contents = out\<rparr>
                    | Some f \<Rightarrow> f\<lparr>file_contents := out\<rparr>))\<rparr>))"
  using assms by (simp add: PostProcess_locked_def WriteFile_def split: option.splits)

lemma PostProcess_json:
  assumes interp: "interpolateCustomData (Render ext) (CustomData cfg) = Some cd"
    and json: "\<not> HasSuffix (OutputPath cfg) ''.pkrvars.hcl''"
    and rd: "readContents w (OutputPath cfg) = Inr c"
    and parse: "parseManifestFile ext c = Some prior"
  shows "writes_document ext source (OutputPath cfg)
           (mergeArtifact (PackerForce cfg) (PACKER_RUN_UUID w) prior (thisArtifact ext cfg cd source w))
           w (PostProcess ext cfg source w)"
proof -
  let ?n = "OutputPath cfg @ ''.lock''"
  let ?w1 = "lockFile_loop ?n 0 w"
  let ?cfg = "cfg\<lparr>CustomData := cd\<rparr>"
  have f: "files ?w1 (OutputPath cfg) = files w (OutputPath cfg)"
    by (rule lockFile_loop_files) simp
  have rd1: "readContents ?w1 (OutputPath ?cfg) = Inr c"
    using rd readContents_cong [OF f] by simp
  have json1: "\<not> HasSuffix (OutputPath ?cfg) ''.pkrvars.hcl''"
    using json by simp
  note locked = PostProcess_locked_json [OF json1 rd1 parse]
  show ?thesis
    using f
    by (simp add: writes_document_def PostProcess_unfold [OF interp] Let_def locked
          lockFile_loop_env thisArtifact_def newArtifact_def persisted_def Remove_files
          split: option.splits)
qed

lemma mergeArtifact_reset:
  "force \<Longrightarrow> run \<noteq> LastRunUUID prior \<Longrightarrow>
   mergeArtifact force run prior a = \<lparr>Builds = [a], LastRunUUID = run\<rparr>"
  by (simp add: mergeArtifact_def ManifestFile_zero_def)

lemma mergeArtifact_append:
  "\<not> force \<or> run = LastRunUUID prior \<Longrightarrow>
   mergeArtifact force run prior a = prior\<lparr>Builds := Builds prior @ [a], LastRunUUID := run\<rparr>"
  by (auto simp: mergeArtifact_def)

lemma mergeArtifact_zero:
  "mergeArtifact force run ManifestFile_zero a = \<lparr>Builds = [a], LastRunUUID = run\<rparr>"
  by (simp add: mergeArtifact_def ManifestFile_zero_def)

lemma LastRunUUID_mergeArtifact: "LastRunUUID (mergeArtifact force run prior a) = run"
  by (simp add: mergeArtifact_def)

lemma PostProcess_interpolate_fails:
  "interpolateCustomData (Render ext) (CustomData cfg) = None \<Longrightarrow>
   PostProcess ext cfg source w = (Return None False False (Some InterpolateError), w)"
  by (simp add: PostProcess_def)

lemma PostProcess_read_fails:
  assumes interp: "interpolateCustomData (Render ext) (CustomData cfg) = Some cd"
    and rd: "readContents w (OutputPath cfg) = Inl e"
  shows "fst (PostProcess ext cfg source w) = Return (Some source) True True (Some e)"
    and "persisted (snd (PostProcess ext cfg source w)) (OutputPath cfg) = persisted w (OutputPath cfg)"
proof -
  let ?w1 = "lockFile_loop (OutputPath cfg @ ''.lock'') 0 w"
  have f: "files ?w1 (OutputPath cfg) = files w (OutputPath cfg)"
    by (rule lockFile_loop_files) simp
  have rd1: "readContents ?w1 (OutputPath cfg) = Inl e"
    using rd readContents_cong [OF f] by simp
  show "fst (PostProcess ext cfg source w) = Return (Some source) True True (Some e)"
    by (simp add: PostProcess_unfold [OF interp] Let_def PostProcess_locked_def rd1)
  show "persisted (snd (PostProcess ext cfg source w)) (OutputPath cfg) = persisted w (OutputPath cfg)"
    using f by (simp add: PostProcess_unfold [OF interp] Let_def PostProcess_locked_def rd1
        persisted_def Remove_files)
qed

lemma PostProcess_parse_fails:
  assumes interp: "interpolateCustomData (Render ext) (CustomData cfg) = Some cd"
    and json: "\<not> HasSuffix (OutputPath cfg) ''.pkrvars.hcl''"
    and rd: "readContents w (OutputPath cfg) = Inr c"
    and parse: "parseManifestFile ext c = None"
  shows "fst (PostProcess ext cfg source w) = Return (Some source) True True (Some ParseError)"
    and "persisted (snd (PostProcess ext cfg source w)) (OutputPath cfg) = persisted w (OutputPath cfg)"
proof -
  let ?w1 = "lockFile_loop (OutputPath cfg @ ''.lock'') 0 w"
  have f: "files ?w1 (OutputPath cfg) = files w (OutputPath cfg)"
    by (rule lockFile_loop_files) simp
  have rd1: "readContents ?w1 (OutputPath cfg) = Inr c"
    using rd readContents_cong [OF f] by simp
  show "fst (PostProcess ext cfg source w) = Return (Some source) True True (Some ParseError)"
    using json by (simp add: PostProcess_unfold [OF interp] Let_def PostProcess_locked_def rd1 parse)
  show "persisted (snd (PostProcess ext cfg source w)) (OutputPath cfg) = persisted w (OutputPath cfg)"
    using f json by (simp add: PostProcess_unfold [OF interp] Let_def PostProcess_locked_def rd1 parse
        persisted_def Remove_files)
qed

subsection \<open>Facts of the concrete setting\<close>

lemma demo_interpolate:
  "interpolateCustomData (Render demo_ext) (CustomData (demo_cfg force p)) = Some []"
  by (simp add: demo_defs)

lemma demo_json: "\<not> HasSuffix (OutputPath (demo_cfg force ''m.json'')) ''.pkrvars.hcl''"
  by (simp add: demo_defs HasSuffix_def)

lemma demo_read:
  "readContents (demo_world [(''m.json'', demo_file c)] run) (OutputPath (demo_cfg force ''m.json''))
     = Inr c"
  by (simp add: demo_defs demo_file_def readContents_def ReadFile_def)

lemma demo_parse: "parseManifestFile demo_ext ''R1,old'' = Some demo_prior"
  by (simp add: demo_defs parseManifestFile_def)

lemma demo_thisArtifact:
  "thisArtifact demo_ext (demo_cfg force ''m.json'') [] demo_source
     (demo_world [(''m.json'', f)] run) = demo_new run"
  by (simp add: demo_defs thisArtifact_def newArtifact_def artifactFile_def Stat_def)

subsection \<open>The merge of the JSON manifest\<close>

text \<open>
  C1 (force-reset law). The prior document \<open>prior\<close> is what the manifest file parses
  to. When \<^verbatim>\<open>-force\<close> is set and the run identifier of this invocation differs from
  \<open>LastRunUUID prior\<close>, the document that the invocation persists has exactly one
  build, the record of this invocation, and the run identifier of this invocation as
  its \<open>LastRunUUID\<close>: the prior builds are discarded.
\<close>

theorem force_reset:
  assumes "interpolateCustomData (Render ext) (CustomData cfg) = Some cd"
    and "\<not> HasSuffix (OutputPath cfg) ''.pkrvars.hcl''"
    and "readContents w (OutputPath cfg) = Inr c"
    and "parseManifestFile ext c = Some prior"
    and "PackerForce cfg"
    and "PACKER_RUN_UUID w \<noteq> LastRunUUID prior"
  shows "writes_document ext source (OutputPath cfg)
           \<lparr>Builds = [thisArtifact ext cfg cd source w], LastRunUUID = PACKER_RUN_UUID w\<rparr>
           w (PostProcess ext cfg source w)"
  using PostProcess_json [OF assms(1-4), of source] mergeArtifact_reset [OF assms(5,6)]
  by simp

theorem force_reset_witness:
  "PackerForce (demo_cfg True ''m.json'')
   \<and> PACKER_RUN_UUID (demo_world [(''m.json'', demo_file ''R1,old'')] ''R2'') \<noteq> LastRunUUID demo_prior
   \<and> fst (PostProcess demo_ext (demo_cfg True ''m.json'') demo_source
        (demo_world [(''m.json'', demo_file ''R1,old'')] ''R2''))
       = Return (Some demo_source) True True None
   \<and> persisted (snd (PostProcess demo_ext (demo_cfg True ''m.json'') demo_source
        (demo_world [(''m.json'', demo_file ''R1,old'')] ''R2''))) ''m.json''
       = MarshalIndent demo_ext \<lparr>Builds = [demo_new ''R2''], LastRunUUID = ''R2''\<rparr>"
proof -
  let ?w = "demo_world [(''m.json'', demo_file ''R1,old'')] ''R2''"
  let ?cfg = "demo_cfg True ''m.json''"
  have h5: "PackerForce ?cfg"
    by (simp add: demo_defs)
  have h6: "PACKER_RUN_UUID ?w \<noteq> LastRunUUID demo_prior"
    by (simp add: demo_defs)
  show ?thesis
    using force_reset [OF demo_interpolate demo_json demo_read demo_parse h5 h6, of demo_source] h5 h6
    by (simp add: demo_thisArtifact writes_document_def) (simp add: demo_defs)
qed

text \<open>
  C2 (no-truncation law). When \<^verbatim>\<open>-force\<close> is not set, or the run identifier of this
  invocation equals \<open>LastRunUUID prior\<close>, the document that the invocation persists is
  the prior document with the record of this invocation appended to its builds: every
  prior build is kept, unaltered and in order.
\<close>

theorem no_truncation:
  assumes "interpolateCustomData (Render ext) (CustomData cfg) = Some cd"
    and "\<not> HasSuffix (OutputPath cfg) ''.pkrvars.hcl''"
    and "readContents w (OutputPath cfg) = Inr c"
    and "parseManifestFile ext c = Some prior"
    and "\<not> PackerForce cfg \<or> PACKER_RUN_UUID w = LastRunUUID prior"
  shows "writes_document ext source (OutputPath cfg)
           (prior\<lparr>Builds := Builds prior @ [thisArtifact ext cfg cd source w],
                  LastRunUUID := PACKER_RUN_UUID w\<rparr>)
           w (PostProcess ext cfg source w)"
  using PostProcess_json [OF assms(1-4), of source] mergeArtifact_append [OF assms(5)]
  by simp

theorem no_truncation_witness:
  "PackerForce (demo_cfg True ''m.json'')
   \<and> PACKER_RUN_UUID (demo_world [(''m.json'', demo_file ''R1,old'')] ''R1'') = LastRunUUID demo_prior
   \<and> fst (PostProcess demo_ext (demo_cfg True ''m.json'') demo_source
        (demo_world [(''m.json'', demo_file ''R1,old'')] ''R1''))
       = Return (Some demo_source) True True None
   \<and> persisted (snd (PostProcess demo_ext (demo_cfg True ''m.json'') demo_source
        (demo_world [(''m.json'', demo_file ''R1,old'')] ''R1''))) ''m.json''
       = MarshalIndent demo_ext \<lparr>Builds = [demo_old, demo_new ''R1''], LastRunUUID = ''R1''\<rparr>"
proof -
  let ?w = "demo_world [(''m.json'', demo_file ''R1,old'')] ''R1''"
  let ?cfg = "demo_cfg True ''m.json''"
  have h5: "PACKER_RUN_UUID ?w = LastRunUUID demo_prior"
    by (simp add: demo_defs)
  then have h5': "\<not> PackerForce ?cfg \<or> PACKER_RUN_UUID ?w = LastRunUUID demo_prior"
    by simp
  have h6: "PackerForce ?cfg"
    by (simp add: demo_defs)
  show ?thesis
    using no_truncation [OF demo_interpolate demo_json demo_read demo_parse h5', of demo_source] h5 h6
    by (simp add: demo_thisArtifact writes_document_def) (simp add: demo_defs)
qed

text \<open>
  C3. Whenever an invocation on a JSON manifest returns without error, the file holds
  the encoding of a document whose \<open>LastRunUUID\<close> is the run identifier of the
  invocation, whatever \<^verbatim>\<open>-force\<close> is and whether or not the builds were truncated.
\<close>

theorem last_run_uuid_written:
  assumes json: "\<not> HasSuffix (OutputPath cfg) ''.pkrvars.hcl''"
    and ok: "fst (PostProcess ext cfg source w) = Return a k f None"
  shows "\<exists>doc out. LastRunUUID doc = PACKER_RUN_UUID w \<and> MarshalIndent ext doc = Some out
           \<and> persisted (snd (PostProcess ext cfg source w)) (OutputPath cfg) = Some out"
proof -
  obtain cd where interp: "interpolateCustomData (Render ext) (CustomData cfg) = Some cd"
    using ok PostProcess_interpolate_fails [of ext cfg source w]
    by (cases "interpolateCustomData (Render ext) (CustomData cfg)") auto
  obtain c where rd: "readContents w (OutputPath cfg) = Inr c"
    using ok PostProcess_read_fails(1) [OF interp, of w _ source]
    by (cases "readContents w (OutputPath cfg)") auto
  obtain prior where parse: "parseManifestFile ext c = Some prior"
    using ok PostProcess_parse_fails(1) [OF interp json rd, of source]
    by (cases "parseManifestFile ext c") auto
  let ?doc = "mergeArtifact (PackerForce cfg) (PACKER_RUN_UUID w) prior (thisArtifact ext cfg cd source w)"
  have wd: "writes_document ext source (OutputPath cfg) ?doc w (PostProcess ext cfg source w)"
    by (rule PostProcess_json [OF interp json rd parse])
  obtain out where "MarshalIndent ext ?doc = Some out"
    and "persisted (snd (PostProcess ext cfg source w)) (OutputPath cfg) = Some out"
    using wd ok by (auto simp: writes_document_def split: option.splits if_splits)
  then show ?thesis
    using LastRunUUID_mergeArtifact by blast
qed

theorem last_run_uuid_written_witness:
  "fst (PostProcess demo_ext (demo_cfg False ''m.json'') demo_source (demo_world [] ''R7''))
     = Return (Some demo_source) True True None
   \<and> (\<exists>doc out. LastRunUUID doc = ''R7'' \<and> MarshalIndent demo_ext doc = Some out
         \<and> persisted (snd (PostProcess demo_ext (demo_cfg False ''m.json'') demo_source
              (demo_world [] ''R7''))) ''m.json'' = Some out)"
proof -
  let ?w = "demo_world [] ''R7''"
  let ?cfg = "demo_cfg False ''m.json''"
  have rd: "readContents ?w (OutputPath ?cfg) = Inr []"
    by (simp add: demo_defs readContents_def ReadFile_def)
  have parse: "parseManifestFile demo_ext [] = Some ManifestFile_zero"
    by (simp add: parseManifestFile_def)
  have ok: "fst (PostProcess demo_ext ?cfg demo_source ?w) = Return (Some demo_source) True True None"
    using PostProcess_json [OF demo_interpolate demo_json rd parse, of demo_source]
    by (simp add: writes_document_def) (simp add: demo_defs)
  have run: "PACKER_RUN_UUID ?w = ''R7''" and p: "OutputPath ?cfg = ''m.json''"
    by (simp_all add: demo_defs)
  show ?thesis
    using last_run_uuid_written [OF demo_json ok] ok unfolding run p by simp
qed

subsection \<open>Loading the JSON manifest\<close>

lemma readContents_absent: "files w p = None \<Longrightarrow> readContents w p = Inr []"
  by (simp add: readContents_def ReadFile_def)

lemma readContents_unreadable:
  "files w p = Some f \<Longrightarrow> \<not> file_readable f \<Longrightarrow> readContents w p = Inl ReadError"
  by (simp add: readContents_def ReadFile_def)

lemma readContents_readable:
  "files w p = Some f \<Longrightarrow> file_readable f \<Longrightarrow> readContents w p = Inr (file_contents f)"
  by (simp add: readContents_def ReadFile_def)

lemma parseManifestFile_empty: "parseManifestFile ext [] = Some ManifestFile_zero"
  by (simp add: parseManifestFile_def)

lemma parseManifestFile_nonempty: "c \<noteq> [] \<Longrightarrow> parseManifestFile ext c = Unmarshal ext c"
  by (simp add: parseManifestFile_def)




text \<open>
  C4 (load errors of the JSON variant). When the manifest file does not exist, the
  read gives no bytes, the prior document is the empty one (no builds, empty
  \<open>LastRunUUID\<close>) and the invocation goes on to persist the document that holds its
  one record. When the file exists and cannot be read, the invocation returns the read
  error. When it can be read, is not empty and \<^verbatim>\<open>json.Unmarshal\<close> rejects it, the
  invocation returns the parse error. Both errors leave the file as it was.
\<close>

theorem load_error_taxonomy:
  assumes interp: "interpolateCustomData (Render ext) (CustomData cfg) = Some cd"
    and json: "\<not> HasSuffix (OutputPath cfg) ''.pkrvars.hcl''"
  shows "(files w (OutputPath cfg) = None \<longrightarrow>
            readContents w (OutputPath cfg) = Inr []
            \<and> parseManifestFile ext [] = Some \<lparr>Builds = [], LastRunUUID = ''''\<rparr>
            \<and> writes_document ext source (OutputPath cfg)
                 \<lparr>Builds = [thisArtifact ext cfg cd source w], LastRunUUID = PACKER_RUN_UUID w\<rparr>
                 w (PostProcess ext cfg source w))
       \<and> (\<forall>f. files w (OutputPath cfg) = Some f \<and> \<not> file_readable f \<longrightarrow>
            fst (PostProcess ext cfg source w) = Return (Some source) True True (Some ReadError)
            \<and> persisted (snd (PostProcess ext cfg source w)) (OutputPath cfg) = persisted w (OutputPath cfg))
       \<and> (\<forall>f. files w (OutputPath cfg) = Some f \<and> file_readable f \<and> file_contents f \<noteq> []
              \<and> Unmarshal ext (file_contents f) = None \<longrightarrow>
            fst (PostProcess ext cfg source w) = Return (Some source) True True (Some ParseError)
            \<and> persisted (snd (PostProcess ext cfg source w)) (OutputPath cfg) = persisted w (OutputPath cfg))"
proof (intro conjI impI allI)
  assume absent: "files w (OutputPath cfg) = None"
  show rd: "readContents w (OutputPath cfg) = Inr []"
    using absent by (rule readContents_absent)
  show "parseManifestFile ext [] = Some \<lparr>Builds = [], LastRunUUID = ''''\<rparr>"
    by (simp add: parseManifestFile_def ManifestFile_zero_def)
  show "writes_document ext source (OutputPath cfg)
          \<lparr>Builds = [thisArtifact ext cfg cd source w], LastRunUUID = PACKER_RUN_UUID w\<rparr>
          w (PostProcess ext cfg source w)"
    using PostProcess_json [OF interp json rd parseManifestFile_empty, of source]
    by (simp add: mergeArtifact_zero)
next
  fix f assume "files w (OutputPath cfg) = Some f \<and> \<not> file_readable f"
  then have rd: "readContents w (OutputPath cfg) = Inl ReadError"
    by (simp add: readContents_unreadable)
  show "fst (PostProcess ext cfg source w) = Return (Some source) True True (Some ReadError)"
    by (rule PostProcess_read_fails(1) [OF interp rd])
  show "persisted (snd (PostProcess ext cfg source w)) (OutputPath cfg) = persisted w (OutputPath cfg)"
    by (rule PostProcess_read_fails(2) [OF interp rd])
next
  fix f assume h: "files w (OutputPath cfg) = Some f \<and> file_readable f \<and> file_contents f \<noteq> []
              \<and> Unmarshal ext (file_contents f) = None"
  then have rd: "readContents w (OutputPath cfg) = Inr (file_contents f)"
    by (simp add: readContents_readable)
  have parse: "parseManifestFile ext (file_contents f) = None"
    using h by (simp add: parseManifestFile_nonempty)
  show "fst (PostProcess ext cfg source w) = Return (Some source) True True (Some ParseError)"
    by (rule PostProcess_parse_fails(1) [OF interp json rd parse])
  show "persisted (snd (PostProcess ext cfg source w)) (OutputPath cfg) = persisted w (OutputPath cfg)"
    by (rule PostProcess_parse_fails(2) [OF interp json rd parse])
qed

theorem load_error_taxonomy_witness:
  "writes_document demo_ext demo_source ''m.json''
      \<lparr>Builds = [demo_new ''R2''], LastRunUUID = ''R2''\<rparr>
      (demo_world [] ''R2'')
      (PostProcess demo_ext (demo_cfg False ''m.json'') demo_source (demo_world [] ''R2''))
   \<and> fst (PostProcess demo_ext (demo_cfg False ''m.json'') demo_source (demo_world [] ''R2''))
       = Return (Some demo_source) True True None
   \<and> fst (PostProcess demo_ext (demo_cfg False ''m.json'') demo_source
        (demo_world [(''m.json'', \<lparr>file_readable = False, file_contents = ''R1,old''\<rparr>)] ''R2''))
       = Return (Some demo_source) True True (Some ReadError)
   \<and> fst (PostProcess demo_ext (demo_cfg False ''m.json'') demo_source
        (demo_world [(''m.json'', demo_file ''garbage'')] ''R2''))
       = Return (Some demo_source) True True (Some ParseError)"
proof -
  let ?cfg = "demo_cfg False ''m.json''"
  let ?w1 = "demo_world [] ''R2''"
  let ?w2 = "demo_world [(''m.json'', \<lparr>file_readable = False, file_contents = ''R1,old''\<rparr>)] ''R2''"
  let ?w3 = "demo_world [(''m.json'', demo_file ''garbage'')] ''R2''"
  have interp: "interpolateCustomData (Render demo_ext) (CustomData ?cfg) = Some []"
    by (rule demo_interpolate)
  have json: "\<not> HasSuffix (OutputPath ?cfg) ''.pkrvars.hcl''"
    by (rule demo_json)
  have p: "OutputPath ?cfg = ''m.json''"
    by (simp add: demo_defs)
  have a1: "files ?w1 ''m.json'' = None"
    by (simp add: demo_defs)
  have art: "thisArtifact demo_ext ?cfg [] demo_source ?w1 = demo_new ''R2''"
    by (simp add: demo_defs thisArtifact_def newArtifact_def artifactFile_def Stat_def)
  have run: "PACKER_RUN_UUID ?w1 = ''R2''"
    by (simp add: demo_defs)
  have a2: "files ?w2 ''m.json'' = Some \<lparr>file_readable = False, file_contents = ''R1,old''\<rparr>"
    by (simp add: demo_defs)
  have a3: "files ?w3 ''m.json'' = Some (demo_file ''garbage'')
      \<and> file_readable (demo_file ''garbage'') \<and> file_contents (demo_file ''garbage'') \<noteq> []
      \<and> Unmarshal demo_ext (file_contents (demo_file ''garbage'')) = None"
    by (simp add: demo_defs demo_file_def)
  have c1: "writes_document demo_ext demo_source ''m.json''
      \<lparr>Builds = [demo_new ''R2''], LastRunUUID = ''R2''\<rparr> ?w1
      (PostProcess demo_ext ?cfg demo_source ?w1)"
    using load_error_taxonomy [OF interp json, where w = ?w1 and source = demo_source] a1
    by (simp add: p art run)
  have c1': "fst (PostProcess demo_ext ?cfg demo_source ?w1) = Return (Some demo_source) True True None"
    using c1 by (simp add: writes_document_def) (simp add: demo_defs)
  have c2: "fst (PostProcess demo_ext ?cfg demo_source ?w2)
      = Return (Some demo_source) True True (Some ReadError)"
    using load_error_taxonomy [OF interp json, where w = ?w2 and source = demo_source] a2
    by (simp add: p)
  have c3: "fst (PostProcess demo_ext ?cfg demo_source ?w3)
      = Return (Some demo_source) True True (Some ParseError)"
    using load_error_taxonomy [OF interp json, where w = ?w3 and source = demo_source] a3
    by (simp add: p)
  show ?thesis
    using c1 c1' c2 c3 by simp
qed



subsection \<open>The lock\<close>
















subsection \<open>\<open>setMapVal\<close>\<close>

lemma setMapVal_step:
  "keys \<noteq> [] \<Longrightarrow> setMapVal target toSet (key # keys) =
     (if key = '''' then setMapVal target toSet keys
      else
        (case map_of target key of
           None \<Rightarrow>
             map_option (\<lambda>value. AList.update key (GMap value) target)
               (setMapVal [] toSet keys)
         | Some (GMap value) \<Rightarrow>
             map_option (\<lambda>value. AList.update key (GMap value) target)
               (setMapVal value toSet keys)
         | Some _ \<Rightarrow> None))"
proof (cases keys)
  case Nil
  assume "keys \<noteq> []"
  with Nil show ?thesis by simp
next
  case (Cons k2 rest)
  show ?thesis unfolding Cons by simp
qed

lemma lookupPath_step:
  "ks \<noteq> [] \<Longrightarrow> lookupPath m (k # ks) =
     (case map_of m k of Some (GMap m') \<Rightarrow> lookupPath m' ks | _ \<Rightarrow> None)"
proof (cases ks)
  case Nil
  assume "ks \<noteq> []"
  with Nil show ?thesis by simp
next
  case (Cons k2 rest)
  show ?thesis unfolding Cons by simp
qed

lemma walkable_empty: "walkable [] keys"
  by (induction keys) simp_all

lemma setMapVal_lands:
  "walkable target keys \<Longrightarrow>
   \<exists>r. setMapVal target toSet (keys @ [final]) = Some r
     \<and> lookupPath r (filter (\<lambda>k. k \<noteq> '''') keys @ [final]) = Some (GMap toSet)"
proof (induction keys arbitrary: target)
  case Nil
  show ?case by (simp add: update_conv')
next
  case (Cons key keys)
  show ?case
  proof (cases "key = ''''")
    case True
    with Cons.prems have "walkable target keys" by simp
    from Cons.IH [OF this] True show ?thesis
      by (simp add: setMapVal_step)
  next
    case False
    show ?thesis
    proof (cases "map_of target key")
      case None
      obtain r where r: "setMapVal [] toSet (keys @ [final]) = Some r"
        and l: "lookupPath r (filter (\<lambda>k. k \<noteq> '''') keys @ [final]) = Some (GMap toSet)"
        using Cons.IH [OF walkable_empty] by blast
      show ?thesis
        using False None r l by (simp add: setMapVal_step lookupPath_step update_conv')
    next
      case (Some v)
      with Cons.prems False obtain m where v: "v = GMap m" and w: "walkable m keys"
        by (cases v) simp_all
      obtain r where r: "setMapVal m toSet (keys @ [final]) = Some r"
        and l: "lookupPath r (filter (\<lambda>k. k \<noteq> '''') keys @ [final]) = Some (GMap toSet)"
        using Cons.IH [OF w] by blast
      show ?thesis
        using False Some v r l by (simp add: setMapVal_step lookupPath_step update_conv')
    qed
  qed
qed

lemma setMapVal_panics:
  "\<not> walkable target keys \<Longrightarrow> setMapVal target toSet (keys @ [final]) = None"
proof (induction keys arbitrary: target)
  case Nil
  then show ?case by simp
next
  case (Cons key keys)
  then show ?case
    by (auto simp: setMapVal_step walkable_empty split: option.splits gval.splits if_splits)
qed

text \<open>
  C5 (nested-key law), as the code has it. \<open>setMapVal\<close> skips an empty segment only
  among the segments before the last, the build group name and the builder type; the
  last segment, the build name, is always the final key. Whenever the maps it descends
  through hold no value that is not a map under those keys, it returns, and the entry
  is then found under the non-empty leading segments followed by the build name,
  whatever was there before. So \<open>("group", "type", "name")\<close> gives
  \<open>m["group"]["type"]["name"]\<close> and \<open>("group", "", "name")\<close> gives \<open>m["group"]["name"]\<close>.
\<close>

theorem setMapVal_nested_key:
  assumes "walkable target [buildGroupName, builderType]"
  shows "\<exists>r. setMapVal target entry [buildGroupName, builderType, buildName] = Some r
           \<and> lookupPath r (filter (\<lambda>k. k \<noteq> '''') [buildGroupName, builderType] @ [buildName])
               = Some (GMap entry)"
  using setMapVal_lands [OF assms, of entry buildName] by simp

theorem setMapVal_nested_key_witness:
  "walkable [(''group'', GMap [(''name'', GString ''stale'')])] [''group'', ''type'']
   \<and> (\<exists>r. setMapVal [(''group'', GMap [(''name'', GString ''stale'')])]
             [(''artifact_id'', GString ''ami-123'')] [''group'', ''type'', ''name''] = Some r
          \<and> lookupPath r [''group'', ''type'', ''name'']
              = Some (GMap [(''artifact_id'', GString ''ami-123'')]))
   \<and> walkable [(''group'', GMap [(''name'', GString ''stale'')])] [''group'', '''']
   \<and> (\<exists>r. setMapVal [(''group'', GMap [(''name'', GString ''stale'')])]
             [(''artifact_id'', GString ''ami-123'')] [''group'', '''', ''name''] = Some r
          \<and> lookupPath r [''group'', ''name'']
              = Some (GMap [(''artifact_id'', GString ''ami-123'')]))"
proof -
  let ?t = "[(''group'', GMap [(''name'', GString ''stale'')])]"
  let ?e = "[(''artifact_id'', GString ''ami-123'')]"
  have w1: "walkable ?t [''group'', ''type'']" by simp
  have w2: "walkable ?t [''group'', '''']" by simp
  show ?thesis
    using setMapVal_nested_key [OF w1, of ?e "''name''"] setMapVal_nested_key [OF w2, of ?e "''name''"]
      w1 w2
    by simp
qed

text \<open>
  The claim as it is written skips any empty segment. With an empty build name the
  entry is stored under the key \<open>""\<close>, one level below \<open>m["group"]["type"]\<close>, and
  not at \<open>m["group"]["type"]\<close>.
\<close>

theorem setMapVal_nested_key_counterexample:
  "setMapVal [] [(''artifact_id'', GString ''ami-123'')] [''group'', ''type'', '''']
     = Some [(''group'', GMap [(''type'', GMap [('''', GMap [(''artifact_id'', GString ''ami-123'')])])])]
   \<and> lookupPath [(''group'', GMap [(''type'', GMap [('''', GMap [(''artifact_id'', GString ''ami-123'')])])])]
        (filter (\<lambda>k. k \<noteq> '''') [''group'', ''type'', ''''])
       \<noteq> Some (GMap [(''artifact_id'', GString ''ami-123'')])"
  by simp

subsection \<open>The structured-text manifest\<close>

lemma SetAttributeValue_Some:
  "SetAttributeValue ext k v wBody = Some wBody' \<Longrightarrow> map_of wBody' = (map_of wBody)(k \<mapsto> v)"
  by (auto simp: SetAttributeValue_def update_conv' split: if_splits)

lemma setAttributes_other:
  "setAttributes ext attrs acc = Some wBody \<Longrightarrow> key \<notin> fst ` set attrs \<Longrightarrow>
   map_of wBody key = map_of acc key"
proof (induction attrs arbitrary: acc)
  case Nil
  then show ?case by simp
next
  case (Cons a attrs)
  obtain k e where a: "a = (k, e)" by (cases a)
  from Cons.prems(1) obtain acc' where
    set: "SetAttributeValue ext k (fst (Expr_Value ext e)) acc = Some acc'"
    and rest: "setAttributes ext attrs acc' = Some wBody"
    by (auto simp: a split: option.splits)
  have "key \<notin> fst ` set attrs" and "key \<noteq> k"
    using Cons.prems(2) by (auto simp: a)
  with Cons.IH [OF rest] SetAttributeValue_Some [OF set] show ?case
    by simp
qed

lemma setAttributes_distinct:
  "setAttributes ext attrs acc = Some wBody \<Longrightarrow> distinct (map fst attrs) \<Longrightarrow>
   (key, e) \<in> set attrs \<Longrightarrow> map_of wBody key = Some (fst (Expr_Value ext e))"
proof (induction attrs arbitrary: acc)
  case Nil
  then show ?case by simp
next
  case (Cons a attrs)
  obtain k e' where a: "a = (k, e')" by (cases a)
  from Cons.prems(1) obtain acc' where
    set: "SetAttributeValue ext k (fst (Expr_Value ext e')) acc = Some acc'"
    and rest: "setAttributes ext attrs acc' = Some wBody"
    by (auto simp: a split: option.splits)
  show ?case
  proof (cases "(key, e) = a")
    case True
    then have "key \<notin> fst ` set attrs"
      using Cons.prems(2) by (auto simp: a)
    from setAttributes_other [OF rest this] SetAttributeValue_Some [OF set] True show ?thesis
      by (simp add: a)
  next
    case False
    with Cons.prems have "distinct (map fst attrs)" and "(key, e) \<in> set attrs"
      by auto
    from Cons.IH [OF rest this] show ?thesis .
  qed
qed

lemma setAttributes_unknown:
  "(key, e) \<in> set attrs \<Longrightarrow> \<not> IsWhollyKnown ext (fst (Expr_Value ext e)) \<Longrightarrow>
   setAttributes ext attrs acc = None"
proof (induction attrs arbitrary: acc)
  case Nil
  then show ?case by simp
next
  case (Cons a attrs)
  obtain k e' where a: "a = (k, e')" by (cases a)
  show ?case
  proof (cases "(key, e) = a")
    case True
    with Cons.prems(2) show ?thesis
      by (auto simp: a SetAttributeValue_def)
  next
    case False
    with Cons.prems have "(key, e) \<in> set attrs"
      by auto
    from Cons.IH [OF this Cons.prems(2)] show ?thesis
      by (simp add: a split: option.splits)
  qed
qed

lemma newBody_preserves:
  assumes "newBody ext attrs manifest = Some wBody"
    and "distinct (map fst attrs)" and "(key, e) \<in> set attrs" and "key \<noteq> ''manifest''"
  shows "map_of wBody key = Some (fst (Expr_Value ext e))"
proof -
  from assms(1) obtain wBody0 v where
    attrs: "setAttributes ext attrs [] = Some wBody0"
    and set: "SetAttributeValue ext ''manifest'' v wBody0 = Some wBody"
    by (auto simp: newBody_def split: option.splits)
  from setAttributes_distinct [OF attrs assms(2,3)] SetAttributeValue_Some [OF set] assms(4)
  show ?thesis
    by simp
qed

lemma newBody_manifest:
  assumes "newBody ext attrs manifest = Some wBody"
  shows "map_option Some (map_of wBody ''manifest'') = Some (HCL2ValueFromConfigValue ext (GMap manifest))"
proof -
  from assms obtain wBody0 v where
    conv: "HCL2ValueFromConfigValue ext (GMap manifest) = Some v"
    and set: "SetAttributeValue ext ''manifest'' v wBody0 = Some wBody"
    by (auto simp: newBody_def split: option.splits)
  from SetAttributeValue_Some [OF set] conv show ?thesis
    by simp
qed

lemma Hcl2Manifest_ok:
  assumes parse: "ParseHCL ext contents = Some attrs"
    and ok: "fst (Hcl2Manifest ext cfg contents source aFiles w) = Return a k f None"
  shows "\<exists>manifest manifest' wBody out.
           priorManifest ext attrs = Some manifest
         \<and> setMapVal manifest (newEntry cfg source aFiles w)
              [PackerBuildGroupName cfg, PackerBuilderType cfg, PackerBuildName cfg] = Some manifest'
         \<and> newBody ext attrs manifest' = Some wBody
         \<and> WriteTo ext wBody = Some out
         \<and> persisted (snd (Hcl2Manifest ext cfg contents source aFiles w)) (OutputPath cfg) = Some out"
proof -
  let ?keys = "[PackerBuildGroupName cfg, PackerBuilderType cfg, PackerBuildName cfg]"
  obtain manifest where pm: "priorManifest ext attrs = Some manifest"
    using ok by (cases "priorManifest ext attrs") (simp_all add: Hcl2Manifest_def parse)
  obtain manifest' where sm: "setMapVal manifest (newEntry cfg source aFiles w) ?keys = Some manifest'"
    using ok by (cases "setMapVal manifest (newEntry cfg source aFiles w) ?keys")
      (simp_all add: Hcl2Manifest_def parse pm del: setMapVal.simps)
  obtain wBody where nb: "newBody ext attrs manifest' = Some wBody"
    using ok by (cases "newBody ext attrs manifest'")
      (simp_all add: Hcl2Manifest_def parse pm sm del: setMapVal.simps)
  obtain out where wt: "WriteTo ext wBody = Some out"
    using ok by (cases "WriteTo ext wBody")
      (simp_all add: Hcl2Manifest_def parse pm sm nb del: setMapVal.simps)
  have nd: "\<not> write_denied w (OutputPath cfg)"
    using ok by (cases "write_denied w (OutputPath cfg)")
      (simp_all add: Hcl2Manifest_def parse pm sm nb wt WriteFile_def del: setMapVal.simps)
  have "persisted (snd (Hcl2Manifest ext cfg contents source aFiles w)) (OutputPath cfg) = Some out"
    using nd by (simp add: Hcl2Manifest_def parse pm sm nb wt WriteFile_def persisted_def
        del: setMapVal.simps split: option.splits)
  with pm sm nb wt show ?thesis by blast
qed

lemma priorManifest_absent:
  "map_of attrs ''manifest'' = None \<Longrightarrow> priorManifest ext attrs = Some []"
  by (simp add: priorManifest_def)

lemma priorManifest_errors:
  "map_of attrs ''manifest'' = Some buildAttr \<Longrightarrow> snd (Expr_Value ext buildAttr) \<Longrightarrow>
   priorManifest ext attrs = Some []"
  by (cases "Expr_Value ext buildAttr") (simp add: priorManifest_def)

text \<open>
  The rewrite has panics of its own: an attribute, \<open>manifest\<close> included, whose value
  \<^verbatim>\<open>hclwrite\<close> cannot turn into tokens stops the loop of lines 244-247, and a
  mapping that the shim cannot convert stops line 249. Nothing is written then.
\<close>

lemma Hcl2Manifest_unknown_value_panics:
  assumes parse: "ParseHCL ext contents = Some attrs"
    and attr: "(key, e) \<in> set attrs"
    and unknown: "\<not> IsWhollyKnown ext (fst (Expr_Value ext e))"
  shows "Hcl2Manifest ext cfg contents source aFiles w = (Panic, w)"
proof -
  have "newBody ext attrs m = None" for m
    by (simp add: newBody_def setAttributes_unknown [OF attr unknown])
  then show ?thesis
    by (simp add: Hcl2Manifest_def parse del: setMapVal.simps split: option.splits)
qed

lemma Hcl2Manifest_unconvertible_panics:
  assumes parse: "ParseHCL ext contents = Some attrs"
    and conv: "\<forall>m. HCL2ValueFromConfigValue ext (GMap m) = None"
  shows "Hcl2Manifest ext cfg contents source aFiles w = (Panic, w)"
proof -
  have "newBody ext attrs m = None" for m
    using conv by (simp add: newBody_def split: option.splits)
  then show ?thesis
    by (simp add: Hcl2Manifest_def parse del: setMapVal.simps split: option.splits)
qed

text \<open>
  C6 (frame property of the structured-text rewrite). The prior document parsed, and
  its attributes have distinct names. Whenever \<open>Hcl2Manifest\<close> returns without error,
  the file holds the serialisation of a body in which every attribute of the prior
  document other than \<open>manifest\<close> has the value that its expression evaluates to: the
  value is written back as it was read.
\<close>

theorem unrelated_attributes_preserved:
  assumes parse: "ParseHCL ext contents = Some attrs"
    and unique: "distinct (map fst attrs)"
    and attr: "(key, e) \<in> set attrs"
    and other: "key \<noteq> ''manifest''"
    and ok: "fst (Hcl2Manifest ext cfg contents source aFiles w) = Return a k f None"
  shows "\<exists>body out. map_of body key = Some (fst (Expr_Value ext e))
           \<and> WriteTo ext body = Some out
           \<and> persisted (snd (Hcl2Manifest ext cfg contents source aFiles w)) (OutputPath cfg) = Some out"
proof -
  obtain manifest' wBody out where "newBody ext attrs manifest' = Some wBody"
    and "WriteTo ext wBody = Some out"
    and "persisted (snd (Hcl2Manifest ext cfg contents source aFiles w)) (OutputPath cfg) = Some out"
    using Hcl2Manifest_ok [OF parse ok] by blast
  with newBody_preserves [OF this(1) unique attr other] show ?thesis
    by blast
qed

theorem unrelated_attributes_preserved_witness:
  "ParseHCL demo_ext ''region = eu'' = Some [(''region'', (GString ''eu'', False))]
   \<and> fst (Hcl2Manifest demo_ext (demo_cfg False ''m.pkrvars.hcl'') ''region = eu'' demo_source []
        (demo_world [(''m.pkrvars.hcl'', demo_file ''region = eu'')] ''R2''))
       = Return (Some demo_source) True True None
   \<and> (\<exists>body out. map_of body ''region'' = Some (GString ''eu'')
         \<and> WriteTo demo_ext body = Some out
         \<and> persisted (snd (Hcl2Manifest demo_ext (demo_cfg False ''m.pkrvars.hcl'') ''region = eu''
              demo_source [] (demo_world [(''m.pkrvars.hcl'', demo_file ''region = eu'')] ''R2'')))
              ''m.pkrvars.hcl'' = Some out)"
proof -
  let ?cfg = "demo_cfg False ''m.pkrvars.hcl''"
  let ?w = "demo_world [(''m.pkrvars.hcl'', demo_file ''region = eu'')] ''R2''"
  let ?attrs = "[(''region'', (GString ''eu'', False))]"
  have parse: "ParseHCL demo_ext ''region = eu'' = Some ?attrs"
    by (simp add: demo_ext_def)
  have unique: "distinct (map fst ?attrs)"
    by simp
  have attr: "(''region'', (GString ''eu'', False)) \<in> set ?attrs"
    by simp
  have other: "''region'' \<noteq> ''manifest''"
    by simp
  have ok: "fst (Hcl2Manifest demo_ext ?cfg ''region = eu'' demo_source [] ?w)
      = Return (Some demo_source) True True None"
    by (simp add: Hcl2Manifest_def priorManifest_def newBody_def SetAttributeValue_def
          WriteFile_def demo_defs Let_def)
  have v: "fst (Expr_Value demo_ext (GString ''eu'', False)) = GString ''eu''"
    and p: "OutputPath ?cfg = ''m.pkrvars.hcl''"
    by (simp_all add: demo_defs)
  show ?thesis
    using unrelated_attributes_preserved [OF parse unique attr other ok] parse ok
    by (simp add: v p)
qed

text \<open>
  C7, where the code departs from it. For a \<open>manifest\<close> attribute that is absent, or
  whose evaluation has errors, lines 208-217 take the empty mapping
  (\<open>priorManifest_absent\<close>, \<open>priorManifest_errors\<close>). One that evaluates without
  errors to a value that the shim does not convert to a map (a string, a number, a
  list) makes the type assertion of line 215 panic: \<open>Hcl2Manifest\<close> does not return
  and writes nothing.
\<close>

theorem manifest_not_a_mapping_panics:
  assumes "ParseHCL ext contents = Some attrs"
    and "map_of attrs ''manifest'' = Some buildAttr"
    and "Expr_Value ext buildAttr = (buildVal, False)"
    and "\<forall>m. ConfigValueFromHCL2 ext buildVal \<noteq> GMap m"
  shows "Hcl2Manifest ext cfg contents source aFiles w = (Panic, w)"
proof -
  have "priorManifest ext attrs = None"
    using assms(2-4) by (cases "ConfigValueFromHCL2 ext buildVal") (simp_all add: priorManifest_def)
  with assms(1) show ?thesis
    by (simp add: Hcl2Manifest_def)
qed

theorem manifest_not_a_mapping_panics_witness:
  "ParseHCL demo_ext ''manifest = x'' = Some [(''manifest'', (GString ''x'', False))]
   \<and> Expr_Value demo_ext (GString ''x'', False) = (GString ''x'', False)
   \<and> ConfigValueFromHCL2 demo_ext (GString ''x'') = GString ''x''
   \<and> fst (PostProcess demo_ext (demo_cfg False ''m.pkrvars.hcl'') demo_source
        (demo_world [(''m.pkrvars.hcl'', demo_file ''manifest = x'')] ''R2'')) = Panic"
proof -
  let ?cfg = "demo_cfg False ''m.pkrvars.hcl''"
  let ?cfg' = "?cfg\<lparr>CustomData := []\<rparr>"
  let ?w = "demo_world [(''m.pkrvars.hcl'', demo_file ''manifest = x'')] ''R2''"
  let ?w1 = "lockFile_loop (OutputPath ?cfg @ ''.lock'') 0 ?w"
  let ?aFiles = "map (artifactFile demo_ext ?cfg' ?w) (source_Files demo_source)"
  let ?attrs = "[(''manifest'', (GString ''x'', False))]"
  have interp: "interpolateCustomData (Render demo_ext) (CustomData ?cfg) = Some []"
    by (rule demo_interpolate)
  have parse: "ParseHCL demo_ext ''manifest = x'' = Some ?attrs"
    by (simp add: demo_ext_def)
  have found: "map_of ?attrs ''manifest'' = Some (GString ''x'', False)"
    by simp
  have val: "Expr_Value demo_ext (GString ''x'', False) = (GString ''x'', False)"
    by (simp add: demo_ext_def)
  have conv: "ConfigValueFromHCL2 demo_ext (GString ''x'') = GString ''x''"
    by (simp add: demo_ext_def)
  then have not_map: "\<forall>m. ConfigValueFromHCL2 demo_ext (GString ''x'') \<noteq> GMap m"
    by simp
  have panic: "Hcl2Manifest demo_ext ?cfg' ''manifest = x'' demo_source ?aFiles ?w1 = (Panic, ?w1)"
    by (rule manifest_not_a_mapping_panics [OF parse found val not_map])
  have f: "files ?w1 (OutputPath ?cfg) = files ?w (OutputPath ?cfg)"
    by (rule lockFile_loop_files) simp
  have rd: "readContents ?w1 (OutputPath ?cfg) = Inr ''manifest = x''"
    using readContents_cong [OF f] by (simp add: demo_defs demo_file_def readContents_def ReadFile_def)
  have hcl: "HasSuffix (OutputPath ?cfg) ''.pkrvars.hcl''"
    by (simp add: demo_defs HasSuffix_def)
  have "fst (PostProcess demo_ext ?cfg demo_source ?w) = Panic"
    by (simp add: PostProcess_unfold [OF interp] Let_def PostProcess_locked_def rd hcl panic)
  with parse val conv show ?thesis
    by simp
qed

end
